theory Spec2Isabelle
  imports Main
begin

section \<open>The chat core of \<^verbatim>\<open>server.js\<close>\<close>

text \<open>
  The Socket.io part of \<^verbatim>\<open>src/server.js\<close> (lines 20-24 and 211-282) keeps two
  module-level variables, \<^verbatim>\<open>chatMessages\<close> (an array) and \<^verbatim>\<open>onlineUsers\<close> (a
  \<^verbatim>\<open>Map\<close> keyed by \<^verbatim>\<open>socket.id\<close>), and registers four handlers on every connected
  socket: \<^verbatim>\<open>joinChat\<close>, \<^verbatim>\<open>sendMessage\<close>, \<^verbatim>\<open>disconnect\<close> and \<^verbatim>\<open>typing\<close>.
  Each handler is embedded as a function from the state before to the state after,
  the events it emits, and the exception it raises, if any.
\<close>

subsection \<open>JavaScript values\<close>

text \<open>
  Event payloads are untyped: a handler receives whatever value the client emitted
  (nothing at all is \<^verbatim>\<open>undefined\<close>). Values are the JSON-like ones Socket.io
  carries. An object is the association list of its own properties, the first
  binding of a key being the property's value. Numbers are integers or \<^verbatim>\<open>NaN\<close>;
  the handlers only test numbers for truthiness, where a fractional number behaves
  as any non-zero integer.
\<close>

datatype jsval =
    JUndefined
  | JNull
  | JBool bool
  | JNum int
  | JNaN
  | JStr string
  | JArr "jsval list"
  | JObj "(string \<times> jsval) list"

datatype error = TypeError

text \<open>JavaScript's \<^verbatim>\<open>ToBoolean\<close>: the falsy values are \<^verbatim>\<open>undefined\<close>, \<^verbatim>\<open>null\<close>,
  \<^verbatim>\<open>false\<close>, \<^verbatim>\<open>0\<close>, \<^verbatim>\<open>NaN\<close> and the empty string.\<close>

fun truthy :: "jsval \<Rightarrow> bool" where
  "truthy JUndefined = False"
| "truthy JNull = False"
| "truthy (JBool b) = b"
| "truthy (JNum n) = (n \<noteq> 0)"
| "truthy JNaN = False"
| "truthy (JStr s) = (s \<noteq> [])"
| "truthy (JArr vs) = True"
| "truthy (JObj kvs) = True"

text \<open>
  Property access \<^verbatim>\<open>v.k\<close>, for the property names the handlers read
  (\<^verbatim>\<open>name\<close>, \<^verbatim>\<open>userId\<close>, \<^verbatim>\<open>message\<close>, \<^verbatim>\<open>username\<close>, \<^verbatim>\<open>isTyping\<close>): on
  \<^verbatim>\<open>undefined\<close> and \<^verbatim>\<open>null\<close> it throws a \<^verbatim>\<open>TypeError\<close>; on an object it is the
  own property or \<^verbatim>\<open>undefined\<close>; primitives and arrays have no property of these
  names.
\<close>

fun get_prop :: "jsval \<Rightarrow> string \<Rightarrow> error + jsval" where
  "get_prop JUndefined k = Inl TypeError"
| "get_prop JNull k = Inl TypeError"
| "get_prop (JObj kvs) k = Inr (case map_of kvs k of Some v \<Rightarrow> v | None \<Rightarrow> JUndefined)"
| "get_prop v k = Inr JUndefined"

text \<open>
  The \<^verbatim>\<open>console.log\<close> lines of the handlers interpolate payload values into
  template literals, which applies \<^verbatim>\<open>ToString\<close>. On a primitive that never throws.
  On an object it calls \<^verbatim>\<open>toString\<close> and then \<^verbatim>\<open>valueOf\<close>: an own property
  \<^verbatim>\<open>toString\<close> of a transported object is data, not a function, it hides
  \<^verbatim>\<open>Object.prototype.toString\<close>, and \<^verbatim>\<open>valueOf\<close> yields no primitive, so the
  conversion throws a \<^verbatim>\<open>TypeError\<close>. An array joins the conversions of its
  elements (\<^verbatim>\<open>undefined\<close> and \<^verbatim>\<open>null\<close> convert to the empty string).
\<close>

fun to_string_raises :: "jsval \<Rightarrow> bool" where
  "to_string_raises (JArr vs) = list_ex to_string_raises vs"
| "to_string_raises (JObj kvs) = (map_of kvs ''toString'' \<noteq> None)"
| "to_string_raises v = False"

text \<open>\<^verbatim>\<open>Array.prototype.slice(start)\<close> with one argument: a negative start counts
  from the end and is clamped at 0, a positive one is clamped at the length.\<close>

definition slice :: "'a list \<Rightarrow> int \<Rightarrow> 'a list" where
  "slice xs start =
     (let len = int (length xs);
          k = (if start < 0 then max (len + start) 0 else min start len)
      in drop (nat k) xs)"

subsection \<open>State\<close>

text \<open>The presence record stored by \<^verbatim>\<open>onlineUsers.set\<close> (line 227).\<close>

record onlineUser =
  username :: jsval
  userId :: jsval

text \<open>
  The object \<^verbatim>\<open>messageData\<close> (lines 242-249). \<^verbatim>\<open>id\<close> is the value of
  \<^verbatim>\<open>Date.now()\<close> and \<^verbatim>\<open>timestamp\<close> the \<^verbatim>\<open>Date\<close> of a second reading of the clock,
  both as milliseconds since the epoch.
\<close>

record chatMessage =
  id_msg :: int
  message :: jsval
  sender :: jsval
  userId_msg :: jsval
  timestamp :: int
  socketId :: string

text \<open>
  \<^verbatim>\<open>chatMessages\<close> and \<^verbatim>\<open>onlineUsers\<close> are the variables of lines 23-24;
  \<open>sockets\<close> is Socket.io's own set of the ids of the connected sockets, which
  decides who receives a broadcast.
\<close>

record state =
  chatMessages :: "chatMessage list"
  onlineUsers :: "string \<rightharpoonup> onlineUser"
  sockets :: "string set"

definition init :: state where
  "init = \<lparr>chatMessages = [], onlineUsers = Map.empty, sockets = {}\<rparr>"

subsection \<open>Outbound events\<close>

datatype outEvent =
    RecentMessages "chatMessage list"
  | UserJoined jsval
  | Message chatMessage
  | UserLeft jsval
  | UserTyping jsval jsval

text \<open>The three ways the handlers emit: \<^verbatim>\<open>socket.emit\<close>, \<^verbatim>\<open>socket.broadcast.emit\<close>
  and \<^verbatim>\<open>io.emit\<close>.\<close>

datatype target = ToSocket string | ToOthers string | ToAll

text \<open>Socket.io's delivery: the sockets an emission reaches, given the connected ones.\<close>

fun recipients :: "string set \<Rightarrow> target \<Rightarrow> string set" where
  "recipients C (ToSocket a) = {a}"
| "recipients C (ToOthers a) = C - {a}"
| "recipients C ToAll = C"

type_synonym emission = "target \<times> outEvent"
type_synonym delivery = "string set \<times> outEvent"

text \<open>What a handler did: the exception that ended it (if any), the state it left
  and the events it had emitted by then.\<close>

type_synonym 'o outcome = "error option \<times> state \<times> 'o list"

subsection \<open>The handlers\<close>

text \<open>Lines 225-237. Both property reads come before any effect; the log line is last.\<close>

definition joinChat :: "string \<Rightarrow> jsval \<Rightarrow> state \<Rightarrow> emission outcome" where
  "joinChat socket_id userData s =
     (case get_prop userData ''name'' of
        Inl e \<Rightarrow> (Some e, s, [])
      | Inr name \<Rightarrow>
          (case get_prop userData ''userId'' of
             Inl e \<Rightarrow> (Some e, s, [])
           | Inr uid \<Rightarrow>
               (let uname = (if truthy name then name else JStr ''Guest'');
                    s' = s\<lparr>onlineUsers :=
                            (onlineUsers s)(socket_id \<mapsto> \<lparr>username = uname, userId = uid\<rparr>)\<rparr>;
                    recentMessages = slice (chatMessages s') (- 10)
                in (if to_string_raises uname then Some TypeError else None,
                    s',
                    [(ToSocket socket_id, RecentMessages recentMessages),
                     (ToOthers socket_id, UserJoined uname)]))))"

text \<open>Lines 240-263: the object \<^verbatim>\<open>messageData\<close> first (lines 241-249; \<open>now_id\<close> is the
  reading of \<^verbatim>\<open>Date.now()\<close>, \<open>now_ts\<close> that of \<^verbatim>\<open>new Date()\<close>), then the handler
  around it. The push and the truncation come before the emission, the log line last.\<close>

definition messageData :: "string \<Rightarrow> jsval \<Rightarrow> int \<Rightarrow> int \<Rightarrow> state \<Rightarrow> error + chatMessage" where
  "messageData socket_id data now_id now_ts s =
     (let user = onlineUsers s socket_id in
      case get_prop data ''message'' of
        Inl e \<Rightarrow> Inl e
      | Inr text \<Rightarrow>
          Inr \<lparr>id_msg = now_id,
               message = text,
               sender = (case user of Some u \<Rightarrow> username u | None \<Rightarrow> JStr ''Guest''),
               userId_msg = (case user of Some u \<Rightarrow> userId u | None \<Rightarrow> JNull),
               timestamp = now_ts,
               socketId = socket_id\<rparr>)"

definition sendMessage :: "string \<Rightarrow> jsval \<Rightarrow> int \<Rightarrow> int \<Rightarrow> state \<Rightarrow> emission outcome" where
  "sendMessage socket_id data now_id now_ts s =
     (case messageData socket_id data now_id now_ts s of
        Inl e \<Rightarrow> (Some e, s, [])
      | Inr msg \<Rightarrow>
          (let pushed = chatMessages s @ [msg];
               kept = (if length pushed > 100 then slice pushed (- 100) else pushed)
           in (if to_string_raises (sender msg) \<or> to_string_raises (message msg)
               then Some TypeError else None,
               s\<lparr>chatMessages := kept\<rparr>,
               [(ToAll, Message msg)])))"

text \<open>Lines 266-273.\<close>

definition disconnect :: "string \<Rightarrow> state \<Rightarrow> emission outcome" where
  "disconnect socket_id s =
     (case onlineUsers s socket_id of
        None \<Rightarrow> (None, s, [])
      | Some user \<Rightarrow>
          (if to_string_raises (username user) then Some TypeError else None,
           s\<lparr>onlineUsers := (onlineUsers s)(socket_id := None)\<rparr>,
           [(ToOthers socket_id, UserLeft (username user))]))"

text \<open>Lines 276-281.\<close>

definition typing :: "string \<Rightarrow> jsval \<Rightarrow> state \<Rightarrow> emission outcome" where
  "typing socket_id data s =
     (case get_prop data ''username'' of
        Inl e \<Rightarrow> (Some e, s, [])
      | Inr uname \<Rightarrow>
          (case get_prop data ''isTyping'' of
             Inl e \<Rightarrow> (Some e, s, [])
           | Inr isTyping \<Rightarrow> (None, s, [(ToOthers socket_id, UserTyping uname isTyping)])))"

subsection \<open>Dispatch\<close>

text \<open>
  Inbound events. \<open>Connection\<close> is Socket.io's \<^verbatim>\<open>connection\<close> event (line 221), which
  registers the handlers on the new socket; the others name the socket they arrive on
  and carry the payload. \<open>SendMessage\<close> also carries the two clock readings its
  handler takes.
\<close>

datatype event =
    Connection string
  | JoinChat string jsval
  | SendMessage string jsval int int
  | Disconnect string
  | Typing string jsval

fun origin :: "event \<Rightarrow> string" where
  "origin (Connection a) = a"
| "origin (JoinChat a d) = a"
| "origin (SendMessage a d t1 t2) = a"
| "origin (Disconnect a) = a"
| "origin (Typing a d) = a"

definition deliver :: "emission outcome \<Rightarrow> delivery outcome" where
  "deliver r = (case r of (err, s, out) \<Rightarrow>
     (err, s, map (\<lambda>(tgt, ev). (recipients (sockets s) tgt, ev)) out))"

text \<open>
  One inbound event. A handler only runs for a connected socket: handlers are
  registered on connection and Socket.io fires nothing on a socket after its
  \<^verbatim>\<open>disconnect\<close>. By the time the \<^verbatim>\<open>disconnect\<close> handler runs the socket has left
  the set of connected sockets.
\<close>

fun step :: "state \<Rightarrow> event \<Rightarrow> delivery outcome" where
  "step s (Connection a) = (None, s\<lparr>sockets := insert a (sockets s)\<rparr>, [])"
| "step s (JoinChat a d) =
     (if a \<in> sockets s then deliver (joinChat a d s) else (None, s, []))"
| "step s (SendMessage a d t1 t2) =
     (if a \<in> sockets s then deliver (sendMessage a d t1 t2 s) else (None, s, []))"
| "step s (Disconnect a) =
     (if a \<in> sockets s then deliver (disconnect a (s\<lparr>sockets := sockets s - {a}\<rparr>))
      else (None, s, []))"
| "step s (Typing a d) =
     (if a \<in> sockets s then deliver (typing a d s) else (None, s, []))"

text \<open>A sequence of inbound events. An exception thrown by a handler is caught
  nowhere and ends the process, so the run stops there.\<close>

fun run :: "state \<Rightarrow> event list \<Rightarrow> delivery outcome" where
  "run s [] = (None, s, [])"
| "run s (e # es) =
     (case step s e of
        (Some err, s', ds) \<Rightarrow> (Some err, s', ds)
      | (None, s', ds) \<Rightarrow> (case run s' es of (r, s'', ds') \<Rightarrow> (r, s'', ds @ ds')))"

text \<open>The \<^verbatim>\<open>messageData\<close> objects pushed onto \<^verbatim>\<open>chatMessages\<close> during a run, in the
  order of the pushes (line 252): one by every \<^verbatim>\<open>sendMessage\<close> handler that gets
  to build its object.\<close>

fun pushed_by :: "state \<Rightarrow> event \<Rightarrow> chatMessage list" where
  "pushed_by s (SendMessage a d t1 t2) =
     (if a \<in> sockets s then
        (case messageData a d t1 t2 s of Inl e \<Rightarrow> [] | Inr msg \<Rightarrow> [msg])
      else [])"
| "pushed_by s e = []"

fun appended :: "state \<Rightarrow> event list \<Rightarrow> chatMessage list" where
  "appended s [] = []"
| "appended s (e # es) =
     (case step s e of
        (Some err, s', ds) \<Rightarrow> pushed_by s e
      | (None, s', ds) \<Rightarrow> pushed_by s e @ appended s' es)"

text \<open>The events delivered to one socket, in order, and the payloads of the
  \<^verbatim>\<open>recentMessages\<close> events among some events.\<close>

definition received :: "string \<Rightarrow> delivery list \<Rightarrow> outEvent list" where
  "received a ds = map snd (filter (\<lambda>(R, ev). a \<in> R) ds)"

fun recentMessages_of :: "outEvent list \<Rightarrow> chatMessage list list" where
  "recentMessages_of [] = []"
| "recentMessages_of (RecentMessages ms # evs) = ms # recentMessages_of evs"
| "recentMessages_of (ev # evs) = recentMessages_of evs"

text \<open>The presence notifications: \<^verbatim>\<open>userJoined\<close>, \<^verbatim>\<open>userLeft\<close>, \<^verbatim>\<open>userTyping\<close>.\<close>

fun presence_event :: "outEvent \<Rightarrow> bool" where
  "presence_event (UserJoined u) = True"
| "presence_event (UserLeft u) = True"
| "presence_event (UserTyping u t) = True"
| "presence_event ev = False"

fun is_SendMessage :: "event \<Rightarrow> bool" where
  "is_SendMessage (SendMessage a d t1 t2) = True"
| "is_SendMessage e = False"

subsection \<open>Scenarios\<close>

text \<open>One socket connects and sends \<open>n\<close> messages, numbered from 1, the \<open>i\<close>-th at
  clock reading \<open>i\<close>.\<close>

definition burst :: "int \<Rightarrow> event list" where
  "burst n = Connection ''A'' #
     map (\<lambda>i. SendMessage ''A'' (JObj [(''message'', JNum i)]) i (i + 1)) [1..n]"

text \<open>A state whose log is full: 100 messages, numbered from 1, and one connected
  socket that never joined.\<close>

definition full_state :: state where
  "full_state =
     \<lparr>chatMessages =
        map (\<lambda>i. \<lparr>id_msg = i, message = JNum i, sender = JStr ''Guest'', userId_msg = JNull,
                  timestamp = i + 1, socketId = ''A''\<rparr>) [1..100],
      onlineUsers = Map.empty,
      sockets = {''A''}\<rparr>"

text \<open>A log of 15 messages, numbered from 1, and two connected sockets.\<close>

definition log15 :: state where
  "log15 =
     \<lparr>chatMessages =
        map (\<lambda>i. \<lparr>id_msg = i, message = JNum i, sender = JStr ''Guest'', userId_msg = JNull,
                  timestamp = i + 1, socketId = ''A''\<rparr>) [1..15],
      onlineUsers = Map.empty,
      sockets = {''A'', ''B''}\<rparr>"

text \<open>Two connected sockets, neither of which has joined, and an empty log.\<close>

definition lobby :: state where
  "lobby = \<lparr>chatMessages = [], onlineUsers = Map.empty, sockets = {''A'', ''B''}\<rparr>"

text \<open>The lobby after socket A has joined as Ann.\<close>

definition chatting :: state where
  "chatting =
     \<lparr>chatMessages = [],
      onlineUsers = [''A'' \<mapsto> \<lparr>username = JStr ''Ann'', userId = JNum 1\<rparr>],
      sockets = {''A'', ''B''}\<rparr>"

text \<open>Two sockets connect and B joins as Bea.\<close>

definition bea_joined :: "event list" where
  "bea_joined = [Connection ''B'', Connection ''A'', JoinChat ''B'' (JObj [(''name'', JStr ''Bea'')])]"

text \<open>A socket connects and joins with the empty string as its name.\<close>

definition anonymous_join :: "event list" where
  "anonymous_join = [Connection ''A'', JoinChat ''A'' (JObj [(''name'', JStr ''''), (''userId'', JNum 7)])]"

section \<open>Basic facts\<close>

lemma slice_neg: "0 < n \<Longrightarrow> slice xs (- int n) = drop (length xs - n) xs"
  by (simp add: slice_def Let_def nat_diff_distrib' max_def)

lemma slice_neg_10: "slice xs (- 10) = drop (length xs - 10) xs"
  using slice_neg [of 10 xs] by simp

lemma slice_neg_100: "slice xs (- 100) = drop (length xs - 100) xs"
  using slice_neg [of 100 xs] by simp

lemma get_prop_ok: "d \<noteq> JUndefined \<Longrightarrow> d \<noteq> JNull \<Longrightarrow> \<exists>v. get_prop d k = Inr v"
  by (cases d) simp_all

lemma sendMessage_log:
  "messageData a d t1 t2 s = Inr m \<Longrightarrow>
   chatMessages (fst (snd (sendMessage a d t1 t2 s))) =
     drop (length (chatMessages s @ [m]) - 100) (chatMessages s @ [m])"
  by (simp add: sendMessage_def Let_def slice_neg_100)

lemma sendMessage_raise_log:
  "messageData a d t1 t2 s = Inl e \<Longrightarrow> sendMessage a d t1 t2 s = (Some e, s, [])"
  by (simp add: sendMessage_def)

lemma fst_snd_deliver [simp]: "fst (snd (deliver r)) = fst (snd r)" "fst (deliver r) = fst r"
  by (cases r; simp add: deliver_def)+

lemma lastn_lastn:
  "drop (length (drop (length H - n) H @ P) - n) (drop (length H - n) H @ P) =
   drop (length (H @ P) - n) (H @ P)"
proof (cases "length H \<le> n")
  case True
  then show ?thesis by simp
next
  case False
  then have "length (drop (length H - n) H) = n" by simp
  then show ?thesis using False by (simp add: drop_append add.commute)
qed

lemma step_log:
  "length (chatMessages s) \<le> 100 \<Longrightarrow>
   chatMessages (fst (snd (step s e))) =
     drop (length (chatMessages s @ pushed_by s e) - 100) (chatMessages s @ pushed_by s e)"
proof (cases e)
  case (SendMessage a d t1 t2)
  assume "length (chatMessages s) \<le> 100"
  then show ?thesis using SendMessage
    by (cases "messageData a d t1 t2 s")
       (simp_all add: sendMessage_log sendMessage_raise_log del: length_append)
qed (simp_all add: joinChat_def disconnect_def typing_def Let_def split: sum.splits option.splits)

lemma run_Cons_fst_snd:
  "fst (snd (run s (e # es))) =
     (if fst (step s e) = None then fst (snd (run (fst (snd (step s e))) es)) else fst (snd (step s e)))"
  by (cases "step s e") (auto split: option.splits prod.splits)

lemma appended_Cons:
  "appended s (e # es) =
     (if fst (step s e) = None then pushed_by s e @ appended (fst (snd (step s e))) es else pushed_by s e)"
  by (cases "step s e") (auto split: option.splits prod.splits)

lemma run_log:
  "chatMessages s = drop (length H - 100) H \<Longrightarrow>
   chatMessages (fst (snd (run s evs))) =
     drop (length (H @ appended s evs) - 100) (H @ appended s evs)"
proof (induction evs arbitrary: s H)
  case Nil
  then show ?case by simp
next
  case (Cons e es)
  have len: "length (chatMessages s) \<le> 100" using Cons.prems
    by (metis diff_diff_cancel diff_le_self length_drop nat_le_linear diff_is_0_eq' drop0)
  have st: "chatMessages (fst (snd (step s e))) =
      drop (length (H @ pushed_by s e) - 100) (H @ pushed_by s e)"
    unfolding step_log [OF len] Cons.prems by (rule lastn_lastn)
  show ?case
  proof (cases "fst (step s e) = None")
    case True
    have r: "fst (snd (run s (e # es))) = fst (snd (run (fst (snd (step s e))) es))"
      using True by (simp add: run_Cons_fst_snd del: run.simps)
    have a: "appended s (e # es) = pushed_by s e @ appended (fst (snd (step s e))) es"
      using True by (simp add: appended_Cons del: appended.simps)
    show ?thesis unfolding r a using Cons.IH [OF st] by (simp only: append_assoc)
  next
    case False
    have r: "fst (snd (run s (e # es))) = fst (snd (step s e))"
      using False by (auto simp add: run_Cons_fst_snd simp del: run.simps)
    have a: "appended s (e # es) = pushed_by s e"
      using False by (auto simp add: appended_Cons simp del: appended.simps)
    show ?thesis unfolding r a by (rule st)
  qed
qed

lemma pushed_by_ok:
  "a \<in> sockets s \<Longrightarrow> d \<noteq> JUndefined \<Longrightarrow> d \<noteq> JNull \<Longrightarrow>
   \<exists>m. messageData a d t1 t2 s = Inr m \<and> pushed_by s (SendMessage a d t1 t2) = [m]"
  using get_prop_ok [of d "''message''"] by (auto simp: messageData_def Let_def)

section \<open>The message log\<close>

text \<open>
  C1. Whatever events arrive, the log never holds more than 100 messages, and it is
  the last 100 (or fewer) of the messages pushed so far, in the order of the pushes.
  Once 101 messages have been pushed the log is all of them but the first, and a
  message pushed onto a log of 100 takes the place of the oldest one.
\<close>

theorem log_keeps_most_recent_100:
  "(run init evs = (r, s, ds) \<longrightarrow>
      length (chatMessages s) \<le> 100 \<and>
      chatMessages s = drop (length (appended init evs) - 100) (appended init evs)) \<and>
   (length (chatMessages s0) = 100 \<and> a \<in> sockets s0 \<and> d \<noteq> JUndefined \<and> d \<noteq> JNull \<longrightarrow>
      (\<exists>m. pushed_by s0 (SendMessage a d t1 t2) = [m] \<and>
           chatMessages (fst (snd (step s0 (SendMessage a d t1 t2)))) = tl (chatMessages s0) @ [m]))"
proof -
  have log: "chatMessages s = drop (length (appended init evs) - 100) (appended init evs)"
    if run: "run init evs = (r, s, ds)"
  proof -
    have "chatMessages init = drop (length ([]::chatMessage list) - 100) []"
      by (simp add: init_def)
    from run_log [OF this, of evs] run show ?thesis by simp
  qed
  have len: "length (chatMessages s) \<le> 100" if run: "run init evs = (r, s, ds)"
    using log [OF run] by simp
  have full: "\<exists>m. pushed_by s0 (SendMessage a d t1 t2) = [m] \<and>
             chatMessages (fst (snd (step s0 (SendMessage a d t1 t2)))) = tl (chatMessages s0) @ [m]"
    if c: "length (chatMessages s0) = 100" and a: "a \<in> sockets s0"
      and d: "d \<noteq> JUndefined" "d \<noteq> JNull"
  proof -
    obtain m where m: "pushed_by s0 (SendMessage a d t1 t2) = [m]"
      using pushed_by_ok [OF a d] by blast
    have "length (chatMessages s0) \<le> 100" using c by simp
    from step_log [OF this, of "SendMessage a d t1 t2"]
    have "chatMessages (fst (snd (step s0 (SendMessage a d t1 t2)))) = drop 1 (chatMessages s0 @ [m])"
      using c unfolding m by simp
    also have "\<dots> = tl (chatMessages s0) @ [m]"
      using c by (cases "chatMessages s0") (simp_all add: drop_Suc)
    finally show ?thesis using m by blast
  qed
  show ?thesis using log len full by blast
qed

theorem log_keeps_most_recent_100_witness:
  "length (appended init (burst 101)) = 101 \<and>
   length (chatMessages (fst (snd (run init (burst 101))))) \<le> 100 \<and>
   chatMessages (fst (snd (run init (burst 101)))) = drop 1 (appended init (burst 101)) \<and>
   length (chatMessages full_state) = 100 \<and>
   (\<exists>m. pushed_by full_state (SendMessage ''A'' (JStr ''hi'') 101 102) = [m] \<and>
        chatMessages (fst (snd (step full_state (SendMessage ''A'' (JStr ''hi'') 101 102)))) =
          tl (chatMessages full_state) @ [m])"
proof -
  have pushes: "length (appended init (burst 101)) = 101"
    unfolding burst_def by code_simp
  have r: "run init (burst 101) =
      (fst (run init (burst 101)), fst (snd (run init (burst 101))), snd (snd (run init (burst 101))))"
    by simp
  have full: "length (chatMessages full_state) = 100" and conn: "''A'' \<in> sockets full_state"
    by (simp_all add: full_state_def)
  have d: "JStr ''hi'' \<noteq> JUndefined" "JStr ''hi'' \<noteq> JNull"
    by simp_all
  note th = log_keeps_most_recent_100
    [of "burst 101" "fst (run init (burst 101))" "fst (snd (run init (burst 101)))"
        "snd (snd (run init (burst 101)))" full_state "''A''" "JStr ''hi''" 101 102]
  from th r
  have bound: "length (chatMessages (fst (snd (run init (burst 101))))) \<le> 100"
    and log: "chatMessages (fst (snd (run init (burst 101)))) =
      drop (length (appended init (burst 101)) - 100) (appended init (burst 101))"
    by blast+
  from th full conn d
  have "\<exists>m. pushed_by full_state (SendMessage ''A'' (JStr ''hi'') 101 102) = [m] \<and>
        chatMessages (fst (snd (step full_state (SendMessage ''A'' (JStr ''hi'') 101 102)))) =
          tl (chatMessages full_state) @ [m]"
    by blast
  with pushes bound log full show ?thesis by simp
qed

section \<open>Joining\<close>

lemma received_simps [simp]:
  "received a [] = []"
  "received a ((R, ev) # ds) = (if a \<in> R then ev # received a ds else received a ds)"
  by (simp_all add: received_def)

lemma step_joinChat:
  assumes "a \<in> sockets s" and "d \<noteq> JUndefined" and "d \<noteq> JNull"
  shows "\<exists>name uid.
    get_prop d ''name'' = Inr name \<and> get_prop d ''userId'' = Inr uid \<and>
    step s (JoinChat a d) =
      (if to_string_raises (if truthy name then name else JStr ''Guest'') then Some TypeError else None,
       s\<lparr>onlineUsers := (onlineUsers s)(a \<mapsto>
            \<lparr>username = (if truthy name then name else JStr ''Guest''), userId = uid\<rparr>)\<rparr>,
       [({a}, RecentMessages (slice (chatMessages s) (- 10))),
        (sockets s - {a}, UserJoined (if truthy name then name else JStr ''Guest''))])"
proof -
  obtain name uid where "get_prop d ''name'' = Inr name" "get_prop d ''userId'' = Inr uid"
    using get_prop_ok [OF assms(2,3)] by meson
  then show ?thesis using assms(1)
    by (simp add: joinChat_def deliver_def Let_def)
qed

text \<open>
  C2, as amended. A connected socket that emits \<^verbatim>\<open>joinChat\<close> with a payload other than
  \<^verbatim>\<open>undefined\<close> and \<^verbatim>\<open>null\<close> receives exactly one \<^verbatim>\<open>recentMessages\<close> event. It
  carries the last \<open>min 10 (length log)\<close> messages of the log, oldest first; for a log
  of 15 messages these are the 6th to the 15th.
\<close>

theorem join_receives_last_10:
  "a \<in> sockets s \<Longrightarrow> d \<noteq> JUndefined \<Longrightarrow> d \<noteq> JNull \<Longrightarrow>
   step s (JoinChat a d) = (r, s', ds) \<Longrightarrow>
     recentMessages_of (received a ds) =
       [drop (length (chatMessages s) - 10) (chatMessages s)] \<and>
     length (drop (length (chatMessages s) - 10) (chatMessages s)) = min 10 (length (chatMessages s)) \<and>
     (length (chatMessages s) = 15 \<longrightarrow>
        recentMessages_of (received a ds) = [drop 5 (chatMessages s)])"
proof -
  assume a: "a \<in> sockets s" and d: "d \<noteq> JUndefined" "d \<noteq> JNull"
    and st: "step s (JoinChat a d) = (r, s', ds)"
  from step_joinChat [OF a d] st obtain u where
    "ds = [({a}, RecentMessages (slice (chatMessages s) (- 10))), (sockets s - {a}, UserJoined u)]"
    by auto
  then have "recentMessages_of (received a ds) = [drop (length (chatMessages s) - 10) (chatMessages s)]"
    by (simp add: slice_neg_10)
  then show ?thesis by auto
qed

theorem join_receives_last_10_witness:
  "''B'' \<in> sockets log15 \<and> length (chatMessages log15) = 15 \<and>
   map (map id_msg) (recentMessages_of (received ''B''
      (snd (snd (step log15 (JoinChat ''B'' (JObj [(''name'', JStr ''Bea'')])))))))
     = [[6, 7, 8, 9, 10, 11, 12, 13, 14, 15]]"
proof -
  have b: "''B'' \<in> sockets log15" and l: "length (chatMessages log15) = 15"
    by (simp_all add: log15_def)
  have d: "JObj [(''name'', JStr ''Bea'')] \<noteq> JUndefined" "JObj [(''name'', JStr ''Bea'')] \<noteq> JNull"
    by simp_all
  have r: "step log15 (JoinChat ''B'' (JObj [(''name'', JStr ''Bea'')])) =
      (fst (step log15 (JoinChat ''B'' (JObj [(''name'', JStr ''Bea'')]))),
       fst (snd (step log15 (JoinChat ''B'' (JObj [(''name'', JStr ''Bea'')])))),
       snd (snd (step log15 (JoinChat ''B'' (JObj [(''name'', JStr ''Bea'')])))))"
    by simp
  from join_receives_last_10 [OF b d r] l
  have "recentMessages_of (received ''B''
      (snd (snd (step log15 (JoinChat ''B'' (JObj [(''name'', JStr ''Bea'')])))))) =
      [drop 5 (chatMessages log15)]"
    by blast
  moreover have "map id_msg (drop 5 (chatMessages log15)) = [6, 7, 8, 9, 10, 11, 12, 13, 14, 15]"
    unfolding log15_def by code_simp
  ultimately show ?thesis using b l by simp
qed

text \<open>With no payload the handler throws at \<^verbatim>\<open>userData.name\<close> (line 226), before it
  emits anything: the joiner receives no \<^verbatim>\<open>recentMessages\<close> event.\<close>

theorem join_without_payload_counterexample:
  "run init [Connection ''B'', Connection ''A''] = (None, lobby, []) \<and>
   ''A'' \<in> sockets lobby \<and>
   step lobby (JoinChat ''A'' JUndefined) = (Some TypeError, lobby, []) \<and>
   recentMessages_of (received ''A'' (snd (snd (step lobby (JoinChat ''A'' JUndefined))))) = []"
  by (simp add: init_def lobby_def joinChat_def deliver_def)

section \<open>Sending\<close>

lemma last_lastn: "last (drop (length (xs @ [m]) - 100) (xs @ [m])) = m"
  by (simp add: last_drop)

lemma step_sendMessage:
  assumes "a \<in> sockets s" and "messageData a d t1 t2 s = Inr m"
  shows "step s (SendMessage a d t1 t2) =
      (if to_string_raises (sender m) \<or> to_string_raises (message m) then Some TypeError else None,
       s\<lparr>chatMessages := drop (length (chatMessages s @ [m]) - 100) (chatMessages s @ [m])\<rparr>,
       [(sockets s, Message m)])"
  using assms by (simp add: sendMessage_def deliver_def Let_def slice_neg_100)

lemma Message_only_from_sendMessage:
  assumes "step s e = (r, s', ds)" and "(R, Message m) \<in> set ds"
  shows "\<exists>a d t1 t2. e = SendMessage a d t1 t2 \<and> a \<in> sockets s \<and> messageData a d t1 t2 s = Inr m"
proof (cases e)
  case (SendMessage a d t1 t2)
  show ?thesis
  proof (cases "a \<in> sockets s")
    case True
    show ?thesis
    proof (cases "messageData a d t1 t2 s")
      case (Inl err)
      then have "step s e = (Some err, s, [])"
        using True SendMessage by (simp add: sendMessage_raise_log deliver_def)
      then show ?thesis using assms by simp
    next
      case (Inr b)
      from step_sendMessage [OF True Inr] assms SendMessage
      have "b = m" by auto
      then show ?thesis using True Inr SendMessage by simp
    qed
  next
    case False
    then show ?thesis using assms SendMessage by simp
  qed
qed (use assms in \<open>auto simp: joinChat_def disconnect_def typing_def deliver_def Let_def
      split: sum.splits option.splits if_splits\<close>)

text \<open>
  C3, as amended. A \<^verbatim>\<open>sendMessage\<close> event of a connected socket whose payload is neither
  \<^verbatim>\<open>undefined\<close> nor \<^verbatim>\<open>null\<close> pushes exactly one message, which is then the last of
  the log, and emits one \<^verbatim>\<open>message\<close> event carrying that very message to all
  connected sockets, the sender among them. Conversely, whatever the inbound event, a
  \<^verbatim>\<open>message\<close> event is only emitted for a message that the same handler pushed and
  that is in the log.
\<close>

theorem sendMessage_appends_then_broadcasts:
  "(a \<in> sockets s \<and> d \<noteq> JUndefined \<and> d \<noteq> JNull \<and>
    step s (SendMessage a d t1 t2) = (r, s', ds) \<longrightarrow>
      (\<exists>m. messageData a d t1 t2 s = Inr m \<and>
           pushed_by s (SendMessage a d t1 t2) = [m] \<and>
           chatMessages s' = drop (length (chatMessages s @ [m]) - 100) (chatMessages s @ [m]) \<and>
           last (chatMessages s') = m \<and>
           ds = [(sockets s, Message m)] \<and>
           received a ds = [Message m])) \<and>
   (step s1 e = (r1, s1', ds1) \<and> (R, Message m1) \<in> set ds1 \<longrightarrow>
      pushed_by s1 e = [m1] \<and> chatMessages s1' \<noteq> [] \<and> last (chatMessages s1') = m1)"
proof -
  have one: "\<exists>m. messageData a d t1 t2 s = Inr m \<and>
           pushed_by s (SendMessage a d t1 t2) = [m] \<and>
           chatMessages s' = drop (length (chatMessages s @ [m]) - 100) (chatMessages s @ [m]) \<and>
           last (chatMessages s') = m \<and>
           ds = [(sockets s, Message m)] \<and>
           received a ds = [Message m]"
    if a: "a \<in> sockets s" and d: "d \<noteq> JUndefined" "d \<noteq> JNull"
      and st: "step s (SendMessage a d t1 t2) = (r, s', ds)"
  proof -
    obtain m where m: "messageData a d t1 t2 s = Inr m" "pushed_by s (SendMessage a d t1 t2) = [m]"
      using pushed_by_ok [OF a d] by blast
    from step_sendMessage [OF a m(1)] st
    have s': "s' = s\<lparr>chatMessages := drop (length (chatMessages s @ [m]) - 100) (chatMessages s @ [m])\<rparr>"
      and ds: "ds = [(sockets s, Message m)]"
      by simp_all
    have "chatMessages s' = drop (length (chatMessages s @ [m]) - 100) (chatMessages s @ [m])"
      unfolding s' by simp
    moreover from this have "last (chatMessages s') = m"
      by (simp only: last_lastn)
    moreover have "received a ds = [Message m]"
      using a ds by simp
    ultimately show ?thesis using m ds by blast
  qed
  have two: "pushed_by s1 e = [m1] \<and> chatMessages s1' \<noteq> [] \<and> last (chatMessages s1') = m1"
    if st: "step s1 e = (r1, s1', ds1)" and mem: "(R, Message m1) \<in> set ds1"
  proof -
    from Message_only_from_sendMessage [OF st mem] obtain b p u1 u2 where
      e: "e = SendMessage b p u1 u2" and b: "b \<in> sockets s1" and m: "messageData b p u1 u2 s1 = Inr m1"
      by blast
    from step_sendMessage [OF b m] st e
    have "chatMessages s1' = drop (length (chatMessages s1 @ [m1]) - 100) (chatMessages s1 @ [m1])"
      by auto
    then have "last (chatMessages s1') = m1" "chatMessages s1' \<noteq> []"
      by (simp_all only: last_lastn) simp
    then show ?thesis using e b m by simp
  qed
  show ?thesis using one two by blast
qed

theorem sendMessage_appends_then_broadcasts_witness:
  "''A'' \<in> sockets lobby \<and>
   step lobby (SendMessage ''A'' (JObj [(''message'', JStr ''hi'')]) 7 8) =
     (None,
      lobby\<lparr>chatMessages := [\<lparr>id_msg = 7, message = JStr ''hi'', sender = JStr ''Guest'',
          userId_msg = JNull, timestamp = 8, socketId = ''A''\<rparr>]\<rparr>,
      [({''A'', ''B''}, Message \<lparr>id_msg = 7, message = JStr ''hi'', sender = JStr ''Guest'',
          userId_msg = JNull, timestamp = 8, socketId = ''A''\<rparr>)]) \<and>
   pushed_by lobby (SendMessage ''A'' (JObj [(''message'', JStr ''hi'')]) 7 8) =
     [\<lparr>id_msg = 7, message = JStr ''hi'', sender = JStr ''Guest'',
          userId_msg = JNull, timestamp = 8, socketId = ''A''\<rparr>]"
proof -
  let ?d = "JObj [(''message'', JStr ''hi'')]"
  let ?m = "\<lparr>id_msg = 7, message = JStr ''hi'', sender = JStr ''Guest'',
          userId_msg = JNull, timestamp = 8, socketId = ''A''\<rparr>"
  have a: "''A'' \<in> sockets lobby" by (simp add: lobby_def)
  have st: "step lobby (SendMessage ''A'' ?d 7 8) =
     (None, lobby\<lparr>chatMessages := [?m]\<rparr>, [({''A'', ''B''}, Message ?m)])"
    by (simp add: lobby_def sendMessage_def messageData_def deliver_def Let_def)
  have mem: "({''A'', ''B''}, Message ?m) \<in> set [({''A'', ''B''}, Message ?m)]" by simp
  from sendMessage_appends_then_broadcasts
    [of "''A''" lobby ?d 7 8 None "lobby\<lparr>chatMessages := [?m]\<rparr>" "[({''A'', ''B''}, Message ?m)]"
        lobby "SendMessage ''A'' ?d 7 8" None "lobby\<lparr>chatMessages := [?m]\<rparr>"
        "[({''A'', ''B''}, Message ?m)]" "{''A'', ''B''}" ?m]
    a st mem
  have "pushed_by lobby (SendMessage ''A'' ?d 7 8) = [?m]"
    by blast
  with a st show ?thesis by blast
qed

text \<open>With no payload the handler throws at \<^verbatim>\<open>data.message\<close> (line 244): nothing is
  pushed and nothing is emitted.\<close>

theorem sendMessage_without_payload_counterexample:
  "run init [Connection ''B'', Connection ''A''] = (None, lobby, []) \<and>
   ''A'' \<in> sockets lobby \<and>
   step lobby (SendMessage ''A'' JUndefined 7 8) = (Some TypeError, lobby, []) \<and>
   pushed_by lobby (SendMessage ''A'' JUndefined 7 8) = []"
  by (simp add: init_def lobby_def sendMessage_def messageData_def deliver_def)

text \<open>
  C4, as amended. A \<^verbatim>\<open>sendMessage\<close> event of a connected socket that is not in
  \<^verbatim>\<open>onlineUsers\<close>, whose payload is neither \<^verbatim>\<open>undefined\<close> nor \<^verbatim>\<open>null\<close> (so that
  \<^verbatim>\<open>data.message\<close> has a value) and whose message converts to a string without
  throwing (every primitive does), raises no exception; the message built has sender
  \<^verbatim>\<open>'Guest'\<close> and user id \<^verbatim>\<open>null\<close>, and it is pushed and broadcast to all connected
  sockets.
\<close>

theorem unregistered_sender_is_Guest:
  "a \<in> sockets s \<Longrightarrow> onlineUsers s a = None \<Longrightarrow>
   get_prop d ''message'' = Inr txt \<Longrightarrow> \<not> to_string_raises txt \<Longrightarrow>
   messageData a d t1 t2 s =
     Inr \<lparr>id_msg = t1, message = txt, sender = JStr ''Guest'', userId_msg = JNull,
          timestamp = t2, socketId = a\<rparr> \<and>
   step s (SendMessage a d t1 t2) =
     (None,
      s\<lparr>chatMessages :=
          drop (length (chatMessages s) + 1 - 100)
            (chatMessages s @ [\<lparr>id_msg = t1, message = txt, sender = JStr ''Guest'',
               userId_msg = JNull, timestamp = t2, socketId = a\<rparr>])\<rparr>,
      [(sockets s, Message \<lparr>id_msg = t1, message = txt, sender = JStr ''Guest'',
          userId_msg = JNull, timestamp = t2, socketId = a\<rparr>)])"
proof -
  assume a: "a \<in> sockets s" and u: "onlineUsers s a = None"
    and d: "get_prop d ''message'' = Inr txt" and t: "\<not> to_string_raises txt"
  let ?m = "\<lparr>id_msg = t1, message = txt, sender = JStr ''Guest'', userId_msg = JNull,
          timestamp = t2, socketId = a\<rparr>"
  have m: "messageData a d t1 t2 s = Inr ?m"
    using u d by (simp add: messageData_def)
  from step_sendMessage [OF a m] t m show ?thesis by simp
qed

theorem unregistered_sender_is_Guest_witness:
  "''A'' \<in> sockets lobby \<and> onlineUsers lobby ''A'' = None \<and>
   get_prop (JObj [(''message'', JStr ''hi'')]) ''message'' = Inr (JStr ''hi'') \<and>
   \<not> to_string_raises (JStr ''hi'') \<and>
   step lobby (SendMessage ''A'' (JObj [(''message'', JStr ''hi'')]) 7 8) =
     (None,
      lobby\<lparr>chatMessages := [\<lparr>id_msg = 7, message = JStr ''hi'', sender = JStr ''Guest'',
          userId_msg = JNull, timestamp = 8, socketId = ''A''\<rparr>]\<rparr>,
      [(sockets lobby, Message \<lparr>id_msg = 7, message = JStr ''hi'', sender = JStr ''Guest'',
          userId_msg = JNull, timestamp = 8, socketId = ''A''\<rparr>)])"
proof -
  have a: "''A'' \<in> sockets lobby" and u: "onlineUsers lobby ''A'' = None"
    and l: "chatMessages lobby = []"
    by (simp_all add: lobby_def)
  have d: "get_prop (JObj [(''message'', JStr ''hi'')]) ''message'' = Inr (JStr ''hi'')"
    and t: "\<not> to_string_raises (JStr ''hi'')"
    by simp_all
  from unregistered_sender_is_Guest [OF a u d t, of 7 8] a u d t l show ?thesis
    by simp
qed

text \<open>An unregistered sender with no payload: the handler throws at \<^verbatim>\<open>data.message\<close>
  and nothing is pushed or emitted. A message object with an own \<^verbatim>\<open>toString\<close>
  property: the log line (line 262) throws after the push and the emit.\<close>

theorem unregistered_sender_raises_counterexample:
  "run init [Connection ''B'', Connection ''A''] = (None, lobby, []) \<and>
   ''A'' \<in> sockets lobby \<and> onlineUsers lobby ''A'' = None \<and>
   step lobby (SendMessage ''A'' JUndefined 7 8) = (Some TypeError, lobby, []) \<and>
   fst (step lobby (SendMessage ''A'' (JObj [(''message'', JObj [(''toString'', JNum 1)])]) 7 8)) =
     Some TypeError"
  by (simp add: init_def lobby_def sendMessage_def messageData_def deliver_def Let_def)

text \<open>
  C5, as amended. The id of a message is the reading of \<^verbatim>\<open>Date.now()\<close> its handler
  took: the ids of two messages are equal exactly when the two readings are, and
  ordered as the readings are. So ids are derived from the clock, distinct for
  different readings, and increasing when the readings increase.
\<close>

theorem message_id_is_clock_reading:
  "pushed_by s (SendMessage a d t1 t2) = [m] \<Longrightarrow>
   pushed_by s' (SendMessage a' d' t1' t2') = [m'] \<Longrightarrow>
     id_msg m = t1 \<and> id_msg m' = t1' \<and>
     (id_msg m = id_msg m') = (t1 = t1') \<and>
     (id_msg m < id_msg m') = (t1 < t1')"
  by (auto simp: messageData_def Let_def split: if_splits sum.splits)

theorem message_id_is_clock_reading_witness:
  "pushed_by lobby (SendMessage ''A'' (JObj [(''message'', JStr ''one'')]) 1000 1000) =
     [\<lparr>id_msg = 1000, message = JStr ''one'', sender = JStr ''Guest'', userId_msg = JNull,
       timestamp = 1000, socketId = ''A''\<rparr>] \<and>
   pushed_by lobby (SendMessage ''B'' (JObj [(''message'', JStr ''two'')]) 1001 1001) =
     [\<lparr>id_msg = 1001, message = JStr ''two'', sender = JStr ''Guest'', userId_msg = JNull,
       timestamp = 1001, socketId = ''B''\<rparr>] \<and>
   id_msg \<lparr>id_msg = 1000, message = JStr ''one'', sender = JStr ''Guest'', userId_msg = JNull,
       timestamp = 1000, socketId = ''A''\<rparr> <
   id_msg \<lparr>id_msg = 1001, message = JStr ''two'', sender = JStr ''Guest'', userId_msg = JNull,
       timestamp = 1001, socketId = ''B''\<rparr>"
proof -
  let ?m = "\<lparr>id_msg = 1000, message = JStr ''one'', sender = JStr ''Guest'', userId_msg = JNull,
       timestamp = 1000, socketId = ''A''\<rparr>"
  let ?m' = "\<lparr>id_msg = 1001, message = JStr ''two'', sender = JStr ''Guest'', userId_msg = JNull,
       timestamp = 1001, socketId = ''B''\<rparr>"
  have p: "pushed_by lobby (SendMessage ''A'' (JObj [(''message'', JStr ''one'')]) 1000 1000) = [?m]"
    and p': "pushed_by lobby (SendMessage ''B'' (JObj [(''message'', JStr ''two'')]) 1001 1001) = [?m']"
    by (simp_all add: lobby_def messageData_def)
  from message_id_is_clock_reading [OF p p'] have "id_msg ?m < id_msg ?m'"
    by (simp del: chatMessage.simps)
  with p p' show ?thesis by blast
qed

text \<open>Two \<^verbatim>\<open>sendMessage\<close> events handled within the same millisecond: two different
  messages in the log carry the same id.\<close>

theorem same_millisecond_same_id_counterexample:
  "run init [Connection ''B'', Connection ''A''] = (None, lobby, []) \<and>
   map message (chatMessages (fst (snd (run lobby
     [SendMessage ''A'' (JObj [(''message'', JStr ''one'')]) 1000 1000,
      SendMessage ''B'' (JObj [(''message'', JStr ''two'')]) 1000 1000])))) =
     [JStr ''one'', JStr ''two''] \<and>
   map id_msg (chatMessages (fst (snd (run lobby
     [SendMessage ''A'' (JObj [(''message'', JStr ''one'')]) 1000 1000,
      SendMessage ''B'' (JObj [(''message'', JStr ''two'')]) 1000 1000])))) =
     [1000, 1000]"
  by (simp add: init_def lobby_def sendMessage_def messageData_def deliver_def Let_def)

section \<open>Presence notifications\<close>

text \<open>
  C6. Whatever the inbound event and the state, no \<^verbatim>\<open>userTyping\<close>, \<^verbatim>\<open>userJoined\<close> or
  \<^verbatim>\<open>userLeft\<close> event it causes is delivered to the socket the inbound event came
  from.
\<close>

theorem presence_events_skip_origin:
  "step s e = (r, s', ds) \<Longrightarrow> (R, ev) \<in> set ds \<Longrightarrow> presence_event ev \<Longrightarrow> origin e \<notin> R"
  by (cases e)
     (auto simp: joinChat_def sendMessage_def disconnect_def typing_def deliver_def Let_def
           split: sum.splits option.splits if_splits)

theorem presence_events_skip_origin_witness:
  "step lobby (Typing ''A'' (JObj [(''username'', JStr ''Ann''), (''isTyping'', JBool True)])) =
     (None, lobby, [({''B''}, UserTyping (JStr ''Ann'') (JBool True))]) \<and>
   presence_event (UserTyping (JStr ''Ann'') (JBool True)) \<and>
   ''A'' \<notin> {''B''}"
proof -
  let ?e = "Typing ''A'' (JObj [(''username'', JStr ''Ann''), (''isTyping'', JBool True)])"
  let ?ev = "UserTyping (JStr ''Ann'') (JBool True)"
  have st: "step lobby ?e = (None, lobby, [({''B''}, ?ev)])"
    by (simp add: lobby_def typing_def deliver_def)
  have mem: "({''B''}, ?ev) \<in> set [({''B''}, ?ev)]" and pe: "presence_event ?ev"
    by simp_all
  from presence_events_skip_origin [OF st mem pe] have "''A'' \<notin> {''B''}"
    by (simp del: insert_iff)
  with st pe show ?thesis by blast
qed

text \<open>
  C7. For a socket that is not in \<^verbatim>\<open>onlineUsers\<close> the \<^verbatim>\<open>disconnect\<close> handler does
  nothing: no exception, no event emitted, \<^verbatim>\<open>onlineUsers\<close> and \<^verbatim>\<open>chatMessages\<close>
  as before. For a registered socket it deletes the entry of the socket, leaves the
  log alone and emits \<^verbatim>\<open>userLeft\<close> with the stored display name to the sockets that
  remain connected.
\<close>

theorem disconnect_unregistered_is_noop:
  "(onlineUsers s a = None \<longrightarrow>
      disconnect a s = (None, s, []) \<and>
      fst (step s (Disconnect a)) = None \<and>
      snd (snd (step s (Disconnect a))) = [] \<and>
      onlineUsers (fst (snd (step s (Disconnect a)))) = onlineUsers s \<and>
      chatMessages (fst (snd (step s (Disconnect a)))) = chatMessages s) \<and>
   (a \<in> sockets s \<and> onlineUsers s a = Some u \<longrightarrow>
      onlineUsers (fst (snd (step s (Disconnect a)))) = (onlineUsers s)(a := None) \<and>
      chatMessages (fst (snd (step s (Disconnect a)))) = chatMessages s \<and>
      sockets (fst (snd (step s (Disconnect a)))) = sockets s - {a} \<and>
      snd (snd (step s (Disconnect a))) = [(sockets s - {a}, UserLeft (username u))] \<and>
      fst (step s (Disconnect a)) =
        (if to_string_raises (username u) then Some TypeError else None))"
  by (simp add: disconnect_def deliver_def)

theorem disconnect_unregistered_is_noop_witness:
  "onlineUsers chatting ''B'' = None \<and>
   fst (step chatting (Disconnect ''B'')) = None \<and>
   snd (snd (step chatting (Disconnect ''B''))) = [] \<and>
   onlineUsers (fst (snd (step chatting (Disconnect ''B'')))) = onlineUsers chatting \<and>
   ''A'' \<in> sockets chatting \<and>
   onlineUsers chatting ''A'' = Some \<lparr>username = JStr ''Ann'', userId = JNum 1\<rparr> \<and>
   onlineUsers (fst (snd (step chatting (Disconnect ''A'')))) ''A'' = None \<and>
   snd (snd (step chatting (Disconnect ''A''))) = [({''B''}, UserLeft (JStr ''Ann''))]"
proof -
  have b: "onlineUsers chatting ''B'' = None" and a: "''A'' \<in> sockets chatting"
    and u: "onlineUsers chatting ''A'' = Some \<lparr>username = JStr ''Ann'', userId = JNum 1\<rparr>"
    and s: "sockets chatting - {''A''} = {''B''}"
    by (auto simp add: chatting_def)
  note th = disconnect_unregistered_is_noop
  from th [of chatting "''B''"] b
  have "fst (step chatting (Disconnect ''B'')) = None"
    and "snd (snd (step chatting (Disconnect ''B''))) = []"
    and "onlineUsers (fst (snd (step chatting (Disconnect ''B'')))) = onlineUsers chatting"
    by blast+
  moreover
  from th [of chatting "''A''" "\<lparr>username = JStr ''Ann'', userId = JNum 1\<rparr>"] a u s
  have "onlineUsers (fst (snd (step chatting (Disconnect ''A'')))) ''A'' = None"
    and "snd (snd (step chatting (Disconnect ''A''))) = [({''B''}, UserLeft (JStr ''Ann''))]"
    by simp_all
  ultimately show ?thesis using a b u by blast
qed

lemma step_registered_connected:
  "dom (onlineUsers s) \<subseteq> sockets s \<Longrightarrow>
   dom (onlineUsers (fst (snd (step s e)))) \<subseteq> sockets (fst (snd (step s e)))"
  by (cases e)
     (auto simp: joinChat_def sendMessage_def disconnect_def typing_def deliver_def Let_def
           split: sum.splits option.splits if_splits)

lemma run_registered_connected:
  "dom (onlineUsers s) \<subseteq> sockets s \<Longrightarrow>
   dom (onlineUsers (fst (snd (run s evs)))) \<subseteq> sockets (fst (snd (run s evs)))"
proof (induction evs arbitrary: s)
  case Nil
  then show ?case by simp
next
  case (Cons e es)
  from step_registered_connected [OF Cons.prems, of e] Cons.IH [of "fst (snd (step s e))"]
  show ?case
    by (simp only: run_Cons_fst_snd split: if_splits) simp
qed

text \<open>
  C8, as amended. In a state reached from the initial one, a \<^verbatim>\<open>joinChat\<close> event whose
  payload is neither \<^verbatim>\<open>undefined\<close> nor \<^verbatim>\<open>null\<close> makes every other connected socket
  receive exactly the \<^verbatim>\<open>userJoined\<close> event with the joiner's display name, whether
  that socket has joined or not; the joiner receives only its \<^verbatim>\<open>recentMessages\<close>, and
  a socket that is not connected receives nothing. Every registered socket is
  connected, so every other registered connection is among the receivers.
\<close>

theorem userJoined_reaches_other_sockets:
  "run init evs = (r0, s, ds0) \<Longrightarrow> a \<in> sockets s \<Longrightarrow> get_prop d ''name'' = Inr name \<Longrightarrow>
   step s (JoinChat a d) = (r, s', ds) \<Longrightarrow>
     received b ds =
       (if b = a then [RecentMessages (slice (chatMessages s) (- 10))]
        else if b \<in> sockets s then [UserJoined (if truthy name then name else JStr ''Guest'')]
        else []) \<and>
     (onlineUsers s b \<noteq> None \<longrightarrow> b \<in> sockets s)"
proof -
  assume run: "run init evs = (r0, s, ds0)" and a: "a \<in> sockets s"
    and n: "get_prop d ''name'' = Inr name" and st: "step s (JoinChat a d) = (r, s', ds)"
  have d: "d \<noteq> JUndefined" "d \<noteq> JNull" using n by auto
  from step_joinChat [OF a d] n st
  have "ds = [({a}, RecentMessages (slice (chatMessages s) (- 10))),
              (sockets s - {a}, UserJoined (if truthy name then name else JStr ''Guest''))]"
    by auto
  then have rec: "received b ds =
       (if b = a then [RecentMessages (slice (chatMessages s) (- 10))]
        else if b \<in> sockets s then [UserJoined (if truthy name then name else JStr ''Guest'')]
        else [])"
    by simp
  have "dom (onlineUsers init) \<subseteq> sockets init" by (simp add: init_def)
  from run_registered_connected [OF this, of evs] run
  have "dom (onlineUsers s) \<subseteq> sockets s" by simp
  then have "onlineUsers s b \<noteq> None \<longrightarrow> b \<in> sockets s" by auto
  with rec show ?thesis by blast
qed

theorem userJoined_reaches_other_sockets_witness:
  "''A'' \<in> sockets (fst (snd (run init bea_joined))) \<and>
   get_prop (JObj [(''name'', JStr ''Ann'')]) ''name'' = Inr (JStr ''Ann'') \<and>
   onlineUsers (fst (snd (run init bea_joined))) ''B'' \<noteq> None \<and>
   received ''B'' (snd (snd (step (fst (snd (run init bea_joined)))
      (JoinChat ''A'' (JObj [(''name'', JStr ''Ann'')]))))) = [UserJoined (JStr ''Ann'')]"
proof -
  let ?s = "fst (snd (run init bea_joined))"
  let ?d = "JObj [(''name'', JStr ''Ann'')]"
  have a: "''A'' \<in> sockets ?s" and b: "onlineUsers ?s ''B'' \<noteq> None"
    by (simp_all add: bea_joined_def init_def joinChat_def deliver_def Let_def)
  have n: "get_prop ?d ''name'' = Inr (JStr ''Ann'')" and ne: "''B'' \<noteq> ''A''"
    by simp_all
  have r: "run init bea_joined = (fst (run init bea_joined), ?s, snd (snd (run init bea_joined)))"
    by simp
  have st: "step ?s (JoinChat ''A'' ?d) =
      (fst (step ?s (JoinChat ''A'' ?d)), fst (snd (step ?s (JoinChat ''A'' ?d))),
       snd (snd (step ?s (JoinChat ''A'' ?d))))"
    by simp
  from userJoined_reaches_other_sockets [OF r a n st, of "''B''"] b ne
  have "received ''B'' (snd (snd (step ?s (JoinChat ''A'' ?d)))) = [UserJoined (JStr ''Ann'')]"
    by simp
  with a b n show ?thesis by blast
qed

text \<open>Two sockets connect and only A joins: B, which is not in \<^verbatim>\<open>onlineUsers\<close> before
  or after, receives the \<^verbatim>\<open>userJoined\<close> event.\<close>

theorem userJoined_reaches_unregistered_counterexample:
  "run init [Connection ''B'', Connection ''A''] = (None, lobby, []) \<and>
   onlineUsers lobby ''B'' = None \<and>
   received ''B'' (snd (snd (step lobby (JoinChat ''A'' (JObj [(''name'', JStr ''Ann'')]))))) =
     [UserJoined (JStr ''Ann'')] \<and>
   onlineUsers (fst (snd (step lobby (JoinChat ''A'' (JObj [(''name'', JStr ''Ann'')]))))) ''B'' = None"
  by (simp add: lobby_def init_def joinChat_def deliver_def Let_def)

section \<open>Reading the log\<close>

lemma step_keeps_log:
  "\<not> is_SendMessage e \<Longrightarrow> chatMessages (fst (snd (step s e))) = chatMessages s"
  by (cases e)
     (auto simp: joinChat_def disconnect_def typing_def deliver_def Let_def
           split: sum.splits option.splits)

lemma run_keeps_log:
  "\<not> list_ex is_SendMessage evs \<Longrightarrow> chatMessages (fst (snd (run s evs))) = chatMessages s"
proof (induction evs arbitrary: s)
  case Nil
  then show ?case by simp
next
  case (Cons e es)
  then have e: "\<not> is_SendMessage e" and es: "\<not> list_ex is_SendMessage es" by simp_all
  from step_keeps_log [OF e, of s] Cons.IH [OF es, of "fst (snd (step s e))"]
  show ?case
    by (simp only: run_Cons_fst_snd split: if_splits) simp
qed

text \<open>
  C9. Reading the recent messages (line 230, in the \<^verbatim>\<open>joinChat\<close> handler) changes
  nothing in the log: after a join the log is what it was, so \<^verbatim>\<open>slice(-n)\<close> of it is
  the same for every \<open>n\<close>. Two joins with no \<^verbatim>\<open>sendMessage\<close> event between them,
  whatever other events come between, are sent identical \<^verbatim>\<open>recentMessages\<close>.
\<close>

theorem recent_leaves_log_unchanged:
  "a \<in> sockets s \<Longrightarrow> d \<noteq> JUndefined \<Longrightarrow> d \<noteq> JNull \<Longrightarrow>
   step s (JoinChat a d) = (r1, s1, ds1) \<Longrightarrow>
   \<not> list_ex is_SendMessage evs \<Longrightarrow> run s1 evs = (r2, s2, ds2) \<Longrightarrow>
   b \<in> sockets s2 \<Longrightarrow> d' \<noteq> JUndefined \<Longrightarrow> d' \<noteq> JNull \<Longrightarrow>
   step s2 (JoinChat b d') = (r3, s3, ds3) \<Longrightarrow>
     chatMessages s1 = chatMessages s \<and>
     chatMessages s3 = chatMessages s \<and>
     slice (chatMessages s1) (- int n) = slice (chatMessages s) (- int n) \<and>
     recentMessages_of (received a ds1) = [slice (chatMessages s) (- 10)] \<and>
     recentMessages_of (received b ds3) = recentMessages_of (received a ds1)"
proof -
  assume a: "a \<in> sockets s" and d: "d \<noteq> JUndefined" "d \<noteq> JNull"
    and st1: "step s (JoinChat a d) = (r1, s1, ds1)"
    and evs: "\<not> list_ex is_SendMessage evs" and run: "run s1 evs = (r2, s2, ds2)"
    and b: "b \<in> sockets s2" and d': "d' \<noteq> JUndefined" "d' \<noteq> JNull"
    and st3: "step s2 (JoinChat b d') = (r3, s3, ds3)"
  have l1: "chatMessages s1 = chatMessages s"
    using step_keeps_log [of "JoinChat a d" s] st1 by simp
  have l2: "chatMessages s2 = chatMessages s"
    using run_keeps_log [OF evs, of s1] run l1 by simp
  have l3: "chatMessages s3 = chatMessages s"
    using step_keeps_log [of "JoinChat b d'" s2] st3 l2 by simp
  from step_joinChat [OF a d] st1 obtain u where
    "ds1 = [({a}, RecentMessages (slice (chatMessages s) (- 10))), (sockets s - {a}, UserJoined u)]"
    by auto
  then have r1: "recentMessages_of (received a ds1) = [slice (chatMessages s) (- 10)]"
    by simp
  from step_joinChat [OF b d'] st3 obtain u' where
    "ds3 = [({b}, RecentMessages (slice (chatMessages s2) (- 10))), (sockets s2 - {b}, UserJoined u')]"
    by auto
  then have r3: "recentMessages_of (received b ds3) = [slice (chatMessages s) (- 10)]"
    using l2 by simp
  show ?thesis using l1 l3 r1 r3 by simp
qed

theorem recent_leaves_log_unchanged_witness:
  "''B'' \<in> sockets log15 \<and>
   \<not> list_ex is_SendMessage [Typing ''B'' (JObj [(''isTyping'', JBool True)]), Disconnect ''B''] \<and>
   ''A'' \<in> sockets (fst (snd (run (fst (snd (step log15 (JoinChat ''B'' (JObj [(''name'', JStr ''Bea'')])))))
       [Typing ''B'' (JObj [(''isTyping'', JBool True)]), Disconnect ''B'']))) \<and>
   recentMessages_of (received ''A'' (snd (snd (step
     (fst (snd (run (fst (snd (step log15 (JoinChat ''B'' (JObj [(''name'', JStr ''Bea'')])))))
       [Typing ''B'' (JObj [(''isTyping'', JBool True)]), Disconnect ''B''])))
     (JoinChat ''A'' (JStr ''Ann'')))))) =
   recentMessages_of (received ''B'' (snd (snd (step log15 (JoinChat ''B'' (JObj [(''name'', JStr ''Bea'')]))))))"
proof -
  let ?d = "JObj [(''name'', JStr ''Bea'')]"
  let ?evs = "[Typing ''B'' (JObj [(''isTyping'', JBool True)]), Disconnect ''B'']"
  let ?s1 = "fst (snd (step log15 (JoinChat ''B'' ?d)))"
  let ?s2 = "fst (snd (run ?s1 ?evs))"
  have b: "''B'' \<in> sockets log15" by (simp add: log15_def)
  have d: "?d \<noteq> JUndefined" "?d \<noteq> JNull" "JStr ''Ann'' \<noteq> JUndefined" "JStr ''Ann'' \<noteq> JNull"
    by simp_all
  have evs: "\<not> list_ex is_SendMessage ?evs" by simp
  have a: "''A'' \<in> sockets ?s2"
    by (simp add: log15_def joinChat_def typing_def disconnect_def deliver_def Let_def)
  have st1: "step log15 (JoinChat ''B'' ?d) =
      (fst (step log15 (JoinChat ''B'' ?d)), ?s1, snd (snd (step log15 (JoinChat ''B'' ?d))))"
    by simp
  have run: "run ?s1 ?evs = (fst (run ?s1 ?evs), ?s2, snd (snd (run ?s1 ?evs)))"
    by simp
  have st3: "step ?s2 (JoinChat ''A'' (JStr ''Ann'')) =
      (fst (step ?s2 (JoinChat ''A'' (JStr ''Ann''))), fst (snd (step ?s2 (JoinChat ''A'' (JStr ''Ann'')))),
       snd (snd (step ?s2 (JoinChat ''A'' (JStr ''Ann'')))))"
    by simp
  from recent_leaves_log_unchanged [OF b d(1,2) st1 evs run a d(3,4) st3, of 10]
  have "recentMessages_of (received ''A'' (snd (snd (step ?s2 (JoinChat ''A'' (JStr ''Ann'')))))) =
      recentMessages_of (received ''B'' (snd (snd (step log15 (JoinChat ''B'' ?d)))))"
    by blast
  with b evs a show ?thesis by blast
qed

section \<open>Display names\<close>

lemma step_names_truthy:
  "(\<forall>b u. onlineUsers s b = Some u \<longrightarrow> truthy (username u)) \<Longrightarrow>
   onlineUsers (fst (snd (step s e))) b = Some u \<Longrightarrow> truthy (username u)"
  by (cases e)
     (auto simp: joinChat_def sendMessage_def disconnect_def typing_def deliver_def Let_def
           split: sum.splits option.splits if_splits)

lemma run_names_truthy:
  "(\<forall>b u. onlineUsers s b = Some u \<longrightarrow> truthy (username u)) \<Longrightarrow>
   onlineUsers (fst (snd (run s evs))) b = Some u \<Longrightarrow> truthy (username u)"
proof (induction evs arbitrary: s)
  case Nil
  then show ?case by simp
next
  case (Cons e es)
  have inv: "\<forall>b u. onlineUsers (fst (snd (step s e))) b = Some u \<longrightarrow> truthy (username u)"
    using step_names_truthy [OF Cons.prems(1)] by blast
  show ?case
  proof (cases "fst (step s e) = None")
    case True
    then have "fst (snd (run s (e # es))) = fst (snd (run (fst (snd (step s e))) es))"
      by (simp add: run_Cons_fst_snd del: run.simps)
    with Cons.prems(2) Cons.IH [OF inv] show ?thesis by simp
  next
    case False
    then have "fst (snd (run s (e # es))) = fst (snd (step s e))"
      by (auto simp add: run_Cons_fst_snd simp del: run.simps)
    with Cons.prems(2) inv show ?thesis by simp
  qed
qed

text \<open>
  C10. A \<^verbatim>\<open>joinChat\<close> event whose payload has a falsy \<^verbatim>\<open>name\<close> (missing,
  \<^verbatim>\<open>null\<close>, \<^verbatim>\<open>false\<close>, \<^verbatim>\<open>0\<close>, \<^verbatim>\<open>NaN\<close> or the empty string) registers the socket
  with the display name \<^verbatim>\<open>'Guest'\<close>. In every state reached from the initial one, every
  stored display name is truthy; none is the empty string.
\<close>

theorem falsy_name_registers_Guest:
  "(a \<in> sockets s \<and> get_prop d ''name'' = Inr name \<and> \<not> truthy name \<and>
    step s (JoinChat a d) = (r, s', ds) \<longrightarrow>
      r = None \<and> map_option username (onlineUsers s' a) = Some (JStr ''Guest'')) \<and>
   (run init evs = (r0, s0, ds0) \<and> onlineUsers s0 b = Some u \<longrightarrow>
      truthy (username u) \<and> username u \<noteq> JStr '''')"
proof -
  have one: "r = None \<and> map_option username (onlineUsers s' a) = Some (JStr ''Guest'')"
    if a: "a \<in> sockets s" and n: "get_prop d ''name'' = Inr name" and f: "\<not> truthy name"
      and st: "step s (JoinChat a d) = (r, s', ds)"
  proof -
    have d: "d \<noteq> JUndefined" "d \<noteq> JNull" using n by auto
    from step_joinChat [OF a d] n f st show ?thesis by auto
  qed
  have two: "truthy (username u) \<and> username u \<noteq> JStr ''''"
    if run: "run init evs = (r0, s0, ds0)" and u: "onlineUsers s0 b = Some u"
  proof -
    have "\<forall>b u. onlineUsers init b = Some u \<longrightarrow> truthy (username u)"
      by (simp add: init_def)
    from run_names_truthy [OF this, of evs b u] run u have "truthy (username u)" by simp
    then show ?thesis by auto
  qed
  show ?thesis using one two by blast
qed

theorem falsy_name_registers_Guest_witness:
  "''A'' \<in> sockets lobby \<and>
   get_prop (JObj [(''name'', JStr ''''), (''userId'', JNum 7)]) ''name'' = Inr (JStr '''') \<and>
   \<not> truthy (JStr '''') \<and>
   map_option username (onlineUsers (fst (snd (step lobby
      (JoinChat ''A'' (JObj [(''name'', JStr ''''), (''userId'', JNum 7)]))))) ''A'') =
     Some (JStr ''Guest'') \<and>
   onlineUsers (fst (snd (run init anonymous_join))) ''A'' =
     Some \<lparr>username = JStr ''Guest'', userId = JNum 7\<rparr> \<and>
   truthy (username \<lparr>username = JStr ''Guest'', userId = JNum 7\<rparr>)"
proof -
  let ?d = "JObj [(''name'', JStr ''''), (''userId'', JNum 7)]"
  let ?u = "\<lparr>username = JStr ''Guest'', userId = JNum 7\<rparr>"
  have a: "''A'' \<in> sockets lobby" by (simp add: lobby_def)
  have n: "get_prop ?d ''name'' = Inr (JStr '''')" and f: "\<not> truthy (JStr '''')"
    by simp_all
  have st: "step lobby (JoinChat ''A'' ?d) =
      (fst (step lobby (JoinChat ''A'' ?d)), fst (snd (step lobby (JoinChat ''A'' ?d))),
       snd (snd (step lobby (JoinChat ''A'' ?d))))"
    by simp
  have run: "run init anonymous_join =
      (fst (run init anonymous_join), fst (snd (run init anonymous_join)),
       snd (snd (run init anonymous_join)))"
    by simp
  have u: "onlineUsers (fst (snd (run init anonymous_join))) ''A'' = Some ?u"
    by (simp add: anonymous_join_def init_def joinChat_def deliver_def Let_def)
  note th = falsy_name_registers_Guest
    [of "''A''" lobby ?d "JStr ''''" "fst (step lobby (JoinChat ''A'' ?d))"
        "fst (snd (step lobby (JoinChat ''A'' ?d)))" "snd (snd (step lobby (JoinChat ''A'' ?d)))"
        anonymous_join "fst (run init anonymous_join)" "fst (snd (run init anonymous_join))"
        "snd (snd (run init anonymous_join))" "''A''" ?u]
  from th a n f st
  have g: "map_option username (onlineUsers (fst (snd (step lobby (JoinChat ''A'' ?d)))) ''A'') =
     Some (JStr ''Guest'')"
    by blast
  from th run u have "truthy (username ?u)"
    by blast
  with a n f g u show ?thesis by blast
qed

end
